theory Spec2Isabelle
  imports Complex_Main "HOL-Library.Word" "HOL-Library.Code_Target_Numeral"
begin

section \<open>The Draco mesh decoding bridge (decode/native.cc)\<close>

text \<open>
  The file \<^verbatim>\<open>native.cc\<close> exports two C functions: \<^verbatim>\<open>decode_draco_mesh_interleaved\<close>, which
  runs the Draco decoder on a byte buffer and repacks the decoded mesh into an array of
  interleaved vertices and a flat array of triangle indices, and \<^verbatim>\<open>free_decoded_mesh\<close>,
  which releases the two arrays.

  Floats are only copied and compared with the constants 0.0 and 1.0, never computed on,
  so a float is modelled by a real number. Whatever the C++ leaves undefined (a write past
  the end of an array, \<^verbatim>\<open>delete[]\<close> of a pointer that owns nothing) and the exception of
  \<^verbatim>\<open>new[]\<close> on a negative length are values of the type \<open>fault\<close>: a function that can run
  into one returns \<open>fault + result\<close>. An allocation of a non-negative length is taken to
  succeed.
\<close>

type_synonym float = real

datatype fault = BadArrayNewLength | OutOfBounds | InvalidFree

definition fbind :: "fault + 'a \<Rightarrow> ('a \<Rightarrow> fault + 'b) \<Rightarrow> fault + 'b" where
  "fbind r f = (case r of Inl e \<Rightarrow> Inl e | Inr x \<Rightarrow> f x)"

subsection \<open>The part of the Draco library the bridge calls\<close>

text \<open>
  The Draco headers are not part of the repository. The bridge uses a mesh through
  \<^verbatim>\<open>num_points\<close>, \<^verbatim>\<open>num_attributes\<close>, \<^verbatim>\<open>attribute(i)\<close>, \<^verbatim>\<open>GetNamedAttribute\<close>,
  \<^verbatim>\<open>num_faces\<close> and \<^verbatim>\<open>face(i)\<close>, and an attribute through \<^verbatim>\<open>attribute_type\<close>,
  \<^verbatim>\<open>num_components\<close>, \<^verbatim>\<open>mapped_index\<close> and \<^verbatim>\<open>GetValue\<close>. An attribute is taken to store
  \<^verbatim>\<open>float\<close> components: \<open>component a k c\<close> is component \<open>c\<close> of the entry at attribute
  value index \<open>k\<close>. Point, face and attribute value indices and the two counts are unsigned
  32-bit numbers in Draco; they are natural numbers here, and the conversions of the
  bridge reduce them modulo \<open>2 ^ 32\<close>.
\<close>

datatype attribute_type = POSITION | NORMAL | COLOR | TEX_COORD | GENERIC

record PointAttribute =
  attribute_type :: attribute_type
  num_components :: nat
  mapped_index :: "nat \<Rightarrow> nat"
  component :: "nat \<Rightarrow> nat \<Rightarrow> float"

type_synonym Face = "nat \<times> nat \<times> nat"

record Mesh =
  num_points :: nat
  attributes :: "PointAttribute list"
  faces :: "Face list"

definition num_faces :: "Mesh \<Rightarrow> nat" where
  "num_faces m = length (faces m)"

text \<open>\<^verbatim>\<open>face[j].value()\<close> for a corner \<open>j\<close> of 0, 1, 2.\<close>

definition corner :: "Face \<Rightarrow> nat \<Rightarrow> nat" where
  "corner f j = (case f of (a, b, c) \<Rightarrow> if j = 0 then a else if j = 1 then b else c)"

text \<open>
  \<^verbatim>\<open>GetNamedAttribute(type)\<close>: the first attribute of the mesh with that type, or the null
  pointer.
\<close>

definition GetNamedAttribute :: "Mesh \<Rightarrow> attribute_type \<Rightarrow> PointAttribute option" where
  "GetNamedAttribute m t = find (\<lambda>a. attribute_type a = t) (attributes m)"

text \<open>The floats of an attribute's entry, one for each component.\<close>

definition attr_value :: "PointAttribute \<Rightarrow> nat \<Rightarrow> float list" where
  "attr_value a k = map (component a k) [0..<num_components a]"

text \<open>
  \<^verbatim>\<open>attr->GetValue(k, dest)\<close> copies the whole entry to \<open>dest\<close>, whatever the size of the
  array behind \<open>dest\<close>: with more components than \<open>dest\<close> has room for, it writes past its
  end.
\<close>

definition GetValue :: "PointAttribute \<Rightarrow> nat \<Rightarrow> float list \<Rightarrow> fault + float list" where
  "GetValue a k dest =
     (if num_components a \<le> length dest
      then Inr (attr_value a k @ drop (num_components a) dest)
      else Inl OutOfBounds)"

text \<open>\<^verbatim>\<open>std::memcpy(dst, src, sizeof(float) * n)\<close> on two arrays of floats.\<close>

definition memcpy :: "float list \<Rightarrow> float list \<Rightarrow> nat \<Rightarrow> fault + float list" where
  "memcpy dst src n =
     (if n \<le> length dst \<and> n \<le> length src
      then Inr (take n src @ drop n dst)
      else Inl OutOfBounds)"

subsection \<open>Vertex, DecodedMesh and the heap\<close>

record Vertex =
  position :: "float list"
  normal :: "float list"
  color :: "float list"
  texcoord0 :: "float list"
  texcoord1 :: "float list"

text \<open>\<^verbatim>\<open>Vertex v = {}\<close>: every float of the five arrays is zero.\<close>

definition zero_vertex :: Vertex where
  "zero_vertex = \<lparr>position = [0, 0, 0], normal = [0, 0, 0], color = [0, 0, 0, 0],
     texcoord0 = [0, 0], texcoord1 = [0, 0]\<rparr>"

datatype ptr = Null | Addr nat

record DecodedMesh =
  vertices :: ptr
  vertex_count :: int
  indices :: ptr
  index_count :: int

text \<open>
  The heap is the list of the arrays allocated so far: \<^verbatim>\<open>new[]\<close> appends one, and its
  address is its place in the list, so a new array never shares its address with another;
  \<^verbatim>\<open>delete[]\<close> leaves \<open>None\<close> in its place. The state is the heap and the structure
  \<^verbatim>\<open>out\<close> (or \<^verbatim>\<open>mesh\<close>) points to.
\<close>

datatype block = VertexArray "Vertex list" | IndexArray "nat list"

type_synonym heap = "block option list"

record state =
  heap :: heap
  out :: DecodedMesh

definition lookup :: "heap \<Rightarrow> nat \<Rightarrow> block option" where
  "lookup h a = (if a < length h then h ! a else None)"

text \<open>
  \<^verbatim>\<open>new T[n]\<close> with an \<^verbatim>\<open>int\<close> n. The cells of the new array are not initialised by the
  C++; the model fills them with a placeholder, which the loop that follows overwrites.
\<close>

definition new_array :: "heap \<Rightarrow> int \<Rightarrow> (nat \<Rightarrow> block) \<Rightarrow> fault + (ptr \<times> heap)" where
  "new_array h n mk =
     (if n < 0 then Inl BadArrayNewLength
      else Inr (Addr (length h), h @ [Some (mk (nat n))]))"

definition new_vertices :: "heap \<Rightarrow> int \<Rightarrow> fault + (ptr \<times> heap)" where
  "new_vertices h n = new_array h n (\<lambda>k. VertexArray (replicate k zero_vertex))"

definition new_indices :: "heap \<Rightarrow> int \<Rightarrow> fault + (ptr \<times> heap)" where
  "new_indices h n = new_array h n (\<lambda>k. IndexArray (replicate k 0))"

text \<open>The contents of the arrays a pointer of the structure leads to.\<close>

definition vertices_at :: "heap \<Rightarrow> ptr \<Rightarrow> Vertex list option" where
  "vertices_at h p =
     (case p of Null \<Rightarrow> None
      | Addr a \<Rightarrow> (case lookup h a of Some (VertexArray vs) \<Rightarrow> Some vs | _ \<Rightarrow> None))"

definition indices_at :: "heap \<Rightarrow> ptr \<Rightarrow> nat list option" where
  "indices_at h p =
     (case p of Null \<Rightarrow> None
      | Addr a \<Rightarrow> (case lookup h a of Some (IndexArray xs) \<Rightarrow> Some xs | _ \<Rightarrow> None))"

definition store :: "heap \<Rightarrow> ptr \<Rightarrow> block \<Rightarrow> heap" where
  "store h p b = (case p of Null \<Rightarrow> h | Addr a \<Rightarrow> h[a := Some b])"

text \<open>
  \<^verbatim>\<open>delete[] p\<close> at the element type of \<open>p\<close> (\<open>ok\<close> recognises the arrays of that
  type): nothing for the null pointer, the release of the array for a pointer that owns
  one, undefined otherwise.
\<close>

definition is_vertices :: "block \<Rightarrow> bool" where
  "is_vertices b = (case b of VertexArray _ \<Rightarrow> True | IndexArray _ \<Rightarrow> False)"

definition is_indices :: "block \<Rightarrow> bool" where
  "is_indices b = (case b of VertexArray _ \<Rightarrow> False | IndexArray _ \<Rightarrow> True)"

definition delete_array :: "(block \<Rightarrow> bool) \<Rightarrow> heap \<Rightarrow> ptr \<Rightarrow> fault + heap" where
  "delete_array ok h p =
     (case p of Null \<Rightarrow> Inr h
      | Addr a \<Rightarrow> (case lookup h a of None \<Rightarrow> Inl InvalidFree
                   | Some b \<Rightarrow> if ok b then Inr (h[a := None]) else Inl InvalidFree))"

subsection \<open>Conversions between the C integer types\<close>

text \<open>The value of an unsigned 32-bit expression, and its conversion to \<^verbatim>\<open>int\<close>.\<close>

definition uint32 :: "nat \<Rightarrow> nat" where
  "uint32 n = n mod 2 ^ 32"

definition int_of_uint32 :: "nat \<Rightarrow> int" where
  "int_of_uint32 n =
     (if uint32 n < 2 ^ 31 then int (uint32 n) else int (uint32 n) - 2 ^ 32)"

subsection \<open>decode\_draco\_mesh\_interleaved\<close>

text \<open>
  The scan for texture coordinates: \<open>find_texcoords\<close> runs over \<^verbatim>\<open>mesh->attribute(i)\<close> for
  \<open>i\<close> from 0 while \<^verbatim>\<open>texcoord_found < 2\<close>; its arguments are the attributes from \<open>i\<close> on,
  the array \<^verbatim>\<open>texcoord_attrs\<close> and \<^verbatim>\<open>texcoord_found\<close>.
\<close>

fun find_texcoords ::
  "PointAttribute list \<Rightarrow> PointAttribute option list \<Rightarrow> nat \<Rightarrow> PointAttribute option list"
where
  "find_texcoords [] texcoord_attrs texcoord_found = texcoord_attrs"
| "find_texcoords (attr # rest) texcoord_attrs texcoord_found =
     (if texcoord_found < 2
      then (if attribute_type attr = TEX_COORD
            then find_texcoords rest (texcoord_attrs[texcoord_found := Some attr])
                   (Suc texcoord_found)
            else find_texcoords rest texcoord_attrs texcoord_found)
      else texcoord_attrs)"

text \<open>The body of the loop over the points, one field of \<open>v\<close> at a time.\<close>

definition set_position :: "PointAttribute \<Rightarrow> nat \<Rightarrow> Vertex \<Rightarrow> fault + Vertex" where
  "set_position pos_attr i v =
     fbind (GetValue pos_attr (mapped_index pos_attr i) (position v))
       (\<lambda>p. Inr (v\<lparr>position := p\<rparr>))"

definition set_normal :: "PointAttribute option \<Rightarrow> nat \<Rightarrow> Vertex \<Rightarrow> fault + Vertex" where
  "set_normal normal_attr i v =
     (case normal_attr of
        Some na \<Rightarrow>
          fbind (GetValue na (mapped_index na i) (normal v)) (\<lambda>n. Inr (v\<lparr>normal := n\<rparr>))
      | None \<Rightarrow> Inr (v\<lparr>normal := (normal v)[0 := 0, 1 := 0, 2 := 1]\<rparr>))"

definition set_color :: "PointAttribute option \<Rightarrow> nat \<Rightarrow> Vertex \<Rightarrow> fault + Vertex" where
  "set_color color_attr i v =
     (case color_attr of
        Some ca \<Rightarrow>
          fbind (GetValue ca (mapped_index ca i) [1, 1, 1, 1]) (\<lambda>tmp.
          fbind (memcpy (color v) tmp (num_components ca)) (\<lambda>c.
            Inr (v\<lparr>color := (if num_components ca < 4 then c[3 := 1] else c)\<rparr>)))
      | None \<Rightarrow> Inr (v\<lparr>color := (color v)[3 := 1, 2 := 1, 1 := 1, 0 := 1]\<rparr>))"

definition set_texcoord ::
  "PointAttribute option list \<Rightarrow> nat \<Rightarrow> nat \<Rightarrow> Vertex \<Rightarrow> fault + Vertex"
where
  "set_texcoord texcoord_attrs i tc v =
     (case texcoord_attrs ! tc of
        Some ta \<Rightarrow>
          fbind (GetValue ta (mapped_index ta i) [0, 0]) (\<lambda>uv.
            Inr (v\<lparr>texcoord0 :=
                     (texcoord0 v)[0 := if tc = 0 then uv ! 0 else texcoord0 v ! 0,
                                   1 := if tc = 0 then uv ! 1 else texcoord0 v ! 1],
                   texcoord1 :=
                     (texcoord1 v)[0 := if tc = 1 then uv ! 0 else texcoord1 v ! 0,
                                   1 := if tc = 1 then uv ! 1 else texcoord1 v ! 1]\<rparr>))
      | None \<Rightarrow>
          Inr (if tc = 0 then v\<lparr>texcoord0 := (texcoord0 v)[1 := 0, 0 := 0]\<rparr>
               else if tc = 1 then v\<lparr>texcoord1 := (texcoord1 v)[1 := 0, 0 := 0]\<rparr>
               else v))"

definition make_vertex ::
  "PointAttribute \<Rightarrow> PointAttribute option \<Rightarrow> PointAttribute option \<Rightarrow>
   PointAttribute option list \<Rightarrow> nat \<Rightarrow> fault + Vertex"
where
  "make_vertex pos_attr normal_attr color_attr texcoord_attrs i =
     fbind (set_position pos_attr i zero_vertex) (\<lambda>v.
     fbind (set_normal normal_attr i v) (\<lambda>v.
     fbind (set_color color_attr i v) (\<lambda>v.
     fbind (set_texcoord texcoord_attrs i 0 v) (\<lambda>v.
     set_texcoord texcoord_attrs i 1 v))))"

text \<open>\<^verbatim>\<open>a[k] = x\<close> on an array of the heap.\<close>

definition write_at :: "'a list \<Rightarrow> nat \<Rightarrow> 'a \<Rightarrow> fault + 'a list" where
  "write_at xs k x = (if k < length xs then Inr (xs[k := x]) else Inl OutOfBounds)"

text \<open>
  The loop over the points, from point \<open>i\<close> on, on the contents \<open>vs\<close> of
  \<^verbatim>\<open>out->vertices\<close>.
\<close>

function fill_vertices ::
  "Mesh \<Rightarrow> PointAttribute \<Rightarrow> PointAttribute option \<Rightarrow> PointAttribute option \<Rightarrow>
   PointAttribute option list \<Rightarrow> nat \<Rightarrow> Vertex list \<Rightarrow> fault + Vertex list"
where
  "fill_vertices mesh pos_attr normal_attr color_attr texcoord_attrs i vs =
     (if i < num_points mesh
      then fbind (make_vertex pos_attr normal_attr color_attr texcoord_attrs i) (\<lambda>v.
           fbind (write_at vs i v) (\<lambda>vs'.
             fill_vertices mesh pos_attr normal_attr color_attr texcoord_attrs (Suc i) vs'))
      else Inr vs)"
  by pat_completeness auto
termination
  by (relation "measure (\<lambda>(mesh, _, _, _, _, i, _). num_points mesh - i)") auto

declare fill_vertices.simps [simp del]

text \<open>
  The inner loop over the corners \<open>j\<close> of face \<open>i\<close>; the position \<^verbatim>\<open>i.value() * 3 + j\<close> is
  computed in unsigned 32-bit arithmetic.
\<close>

function write_corners :: "Face \<Rightarrow> nat \<Rightarrow> nat \<Rightarrow> nat list \<Rightarrow> fault + nat list" where
  "write_corners face i j xs =
     (if j < 3
      then fbind (write_at xs (uint32 (i * 3 + j)) (corner face j))
             (\<lambda>xs'. write_corners face i (Suc j) xs')
      else Inr xs)"
  by pat_completeness auto
termination
  by (relation "measure (\<lambda>(_, _, j, _). 3 - j)") auto

declare write_corners.simps [simp del]

text \<open>The loop over the faces, from face \<open>i\<close> on, on the contents of \<^verbatim>\<open>out->indices\<close>.\<close>

function fill_indices :: "Mesh \<Rightarrow> nat \<Rightarrow> nat list \<Rightarrow> fault + nat list" where
  "fill_indices mesh i xs =
     (if i < num_faces mesh
      then fbind (write_corners (faces mesh ! i) i 0 xs)
             (\<lambda>xs'. fill_indices mesh (Suc i) xs')
      else Inr xs)"
  by pat_completeness auto
termination
  by (relation "measure (\<lambda>(mesh, i, _). num_faces mesh - i)") auto

declare fill_indices.simps [simp del]

text \<open>
  The part of the function after the position attribute has been found. The arrays are
  allocated on the heap, filled by the two loops and stored back.
\<close>

definition decode_mesh :: "Mesh \<Rightarrow> PointAttribute \<Rightarrow> state \<Rightarrow> fault + (bool \<times> state)" where
  "decode_mesh mesh pos_attr s =
     (let n = int_of_uint32 (num_points mesh);
          normal_attr = GetNamedAttribute mesh NORMAL;
          color_attr = GetNamedAttribute mesh COLOR;
          texcoord_attrs = find_texcoords (attributes mesh) [None, None] 0;
          s1 = s\<lparr>out := (out s)\<lparr>vertex_count := n\<rparr>\<rparr>
      in
      fbind (new_vertices (heap s1) n) (\<lambda>(p, h).
      let s2 = s1\<lparr>heap := h, out := (out s1)\<lparr>vertices := p\<rparr>\<rparr> in
      fbind (fill_vertices mesh pos_attr normal_attr color_attr texcoord_attrs 0
               (replicate (nat n) zero_vertex)) (\<lambda>vs.
      let s3 = s2\<lparr>heap := store (heap s2) p (VertexArray vs)\<rparr>;
          k = int_of_uint32 (uint32 (num_faces mesh * 3));
          s4 = s3\<lparr>out := (out s3)\<lparr>index_count := k\<rparr>\<rparr>
      in
      fbind (new_indices (heap s4) k) (\<lambda>(q, h').
      let s5 = s4\<lparr>heap := h', out := (out s4)\<lparr>indices := q\<rparr>\<rparr> in
      fbind (fill_indices mesh 0 (replicate (nat k) 0)) (\<lambda>xs.
        Inr (True, s5\<lparr>heap := store (heap s5) q (IndexArray xs)\<rparr>))))))"

text \<open>
  The exported function. \<open>DecodeMeshFromBuffer\<close> is Draco's decoder on the bytes
  \<^verbatim>\<open>data[0..length)\<close>: \<open>None\<close> when it rejects the stream (\<^verbatim>\<open>!result.ok()\<close>), the decoded
  mesh otherwise.
\<close>

definition decode_draco_mesh_interleaved ::
  "(8 word list \<Rightarrow> Mesh option) \<Rightarrow> 8 word list \<Rightarrow> state \<Rightarrow> fault + (bool \<times> state)"
where
  "decode_draco_mesh_interleaved DecodeMeshFromBuffer data s =
     (case DecodeMeshFromBuffer data of
        None \<Rightarrow> Inr (False, s)
      | Some mesh \<Rightarrow>
          (case GetNamedAttribute mesh POSITION of
             None \<Rightarrow> Inr (False, s)
           | Some pos_attr \<Rightarrow> decode_mesh mesh pos_attr s))"

subsection \<open>free\_decoded\_mesh\<close>

definition free_decoded_mesh :: "state \<Rightarrow> fault + state" where
  "free_decoded_mesh s =
     fbind (delete_array is_vertices (heap s) (vertices (out s))) (\<lambda>h.
     fbind (delete_array is_indices h (indices (out s))) (\<lambda>h'.
       Inr (s\<lparr>heap := h',
               out := (out s)\<lparr>vertices := Null, indices := Null,
                                vertex_count := 0, index_count := 0\<rparr>\<rparr>)))"

subsection \<open>Notions of the specification\<close>

text \<open>
  The texture-coordinate attributes of a mesh in the order of its attribute list, and the
  \<open>n\<close>-th of a list of attributes when there is one: the specification's "first two
  attributes whose role is texture-coordinate", to compare with what \<open>find_texcoords\<close>
  leaves in \<^verbatim>\<open>texcoord_attrs\<close>.
\<close>

definition texcoord_sets :: "Mesh \<Rightarrow> PointAttribute list" where
  "texcoord_sets m = filter (\<lambda>a. attribute_type a = TEX_COORD) (attributes m)"

definition nth_attr :: "PointAttribute list \<Rightarrow> nat \<Rightarrow> PointAttribute option" where
  "nth_attr as n = (if n < length as then Some (as ! n) else None)"

text \<open>
  Every attribute the bridge reads has no more components than the array its entry is
  copied to: three floats for the position and the normal, four for the colour, two for
  each of the first two texture-coordinate attributes.
\<close>

definition at_most :: "nat \<Rightarrow> PointAttribute option \<Rightarrow> bool" where
  "at_most n a = (case a of None \<Rightarrow> True | Some x \<Rightarrow> num_components x \<le> n)"

definition components_fit :: "Mesh \<Rightarrow> bool" where
  "components_fit m =
     (at_most 3 (GetNamedAttribute m POSITION) \<and>
      at_most 3 (GetNamedAttribute m NORMAL) \<and>
      at_most 4 (GetNamedAttribute m COLOR) \<and>
      at_most 2 (nth_attr (texcoord_sets m) 0) \<and>
      at_most 2 (nth_attr (texcoord_sets m) 1))"

text \<open>Every corner of every face refers to a point of the mesh.\<close>

definition faces_valid :: "Mesh \<Rightarrow> bool" where
  "faces_valid m =
     list_all (\<lambda>f. corner f 0 < num_points m \<and> corner f 1 < num_points m \<and>
                    corner f 2 < num_points m) (faces m)"

text \<open>
  A pointer of the structure owns its array: it is null, or it leads to a live array of
  its element type.
\<close>

definition owns_arrays :: "state \<Rightarrow> bool" where
  "owns_arrays s =
     ((vertices (out s) = Null \<or> vertices_at (heap s) (vertices (out s)) \<noteq> None) \<and>
      (indices (out s) = Null \<or> indices_at (heap s) (indices (out s)) \<noteq> None))"

definition cleared :: DecodedMesh where
  "cleared = \<lparr>vertices = Null, vertex_count = 0, indices = Null, index_count = 0\<rparr>"

subsection \<open>Concrete inputs\<close>

text \<open>
  A mesh of three points and two faces with a position, a normal, a colour of two
  components and three texture-coordinate attributes, a mesh without a position, a mesh
  of \<open>2 ^ 31\<close> points, a mesh of \<open>2 ^ 30\<close> faces, a mesh whose texture coordinates have
  three components, and a caller's state whose structure holds arbitrary values.
\<close>

definition ex_position :: PointAttribute where
  "ex_position = \<lparr>attribute_type = POSITION, num_components = 3,
     mapped_index = (\<lambda>i. i), component = (\<lambda>k c. real (10 * k + c))\<rparr>"

definition ex_normal :: PointAttribute where
  "ex_normal = \<lparr>attribute_type = NORMAL, num_components = 3,
     mapped_index = (\<lambda>i. 0), component = (\<lambda>k c. if c = 0 then 1 else 0)\<rparr>"

definition ex_color :: PointAttribute where
  "ex_color = \<lparr>attribute_type = COLOR, num_components = 2,
     mapped_index = (\<lambda>i. 2 - i), component = (\<lambda>k c. real (k + c) / 4)\<rparr>"

definition ex_uv :: "nat \<Rightarrow> PointAttribute" where
  "ex_uv n = \<lparr>attribute_type = TEX_COORD, num_components = 2,
     mapped_index = (\<lambda>i. i), component = (\<lambda>k c. real (100 * n + 10 * k + c))\<rparr>"

definition ex_mesh :: Mesh where
  "ex_mesh = \<lparr>num_points = 3,
     attributes = [ex_uv 7, ex_position, ex_normal, ex_uv 8, ex_color, ex_uv 9],
     faces = [(0, 1, 2), (2, 1, 0)]\<rparr>"

definition ex_no_position :: Mesh where
  "ex_no_position = \<lparr>num_points = 3, attributes = [ex_normal, ex_color], faces = []\<rparr>"

definition ex_huge :: Mesh where
  "ex_huge = \<lparr>num_points = 2 ^ 31, attributes = [ex_position], faces = []\<rparr>"

definition ex_many_faces :: Mesh where
  "ex_many_faces = \<lparr>num_points = 0, attributes = [ex_position],
     faces = replicate (2 ^ 30) (0, 0, 0)\<rparr>"

definition ex_wide_uv :: PointAttribute where
  "ex_wide_uv = \<lparr>attribute_type = TEX_COORD, num_components = 3,
     mapped_index = (\<lambda>i. i), component = (\<lambda>k c. 0)\<rparr>"

definition ex_uvw :: Mesh where
  "ex_uvw = \<lparr>num_points = 1, attributes = [ex_position, ex_wide_uv], faces = []\<rparr>"

definition ex_state :: state where
  "ex_state = \<lparr>heap = [Some (IndexArray [5])],
     out = \<lparr>vertices = Addr 9, vertex_count = 4, indices = Null, index_count = - 1\<rparr>\<rparr>"

text \<open>What the decoder leaves for \<open>ex_mesh\<close> in \<open>ex_state\<close>.\<close>

definition ex_vertices :: "Vertex list" where
  "ex_vertices =
     [\<lparr>position = [0, 1, 2], normal = [1, 0, 0], color = [1 / 2, 3 / 4, 0, 1],
       texcoord0 = [700, 701], texcoord1 = [800, 801]\<rparr>,
      \<lparr>position = [10, 11, 12], normal = [1, 0, 0], color = [1 / 4, 1 / 2, 0, 1],
       texcoord0 = [710, 711], texcoord1 = [810, 811]\<rparr>,
      \<lparr>position = [20, 21, 22], normal = [1, 0, 0], color = [0, 1 / 4, 0, 1],
       texcoord0 = [720, 721], texcoord1 = [820, 821]\<rparr>]"

definition ex_result :: state where
  "ex_result = \<lparr>heap = [Some (IndexArray [5]), Some (VertexArray ex_vertices),
       Some (IndexArray [0, 1, 2, 2, 1, 0])],
     out = \<lparr>vertices = Addr 1, vertex_count = 3, indices = Addr 2, index_count = 6\<rparr>\<rparr>"

section \<open>Properties\<close>

subsection \<open>Auxiliary facts\<close>

lemma fbind_Inl [simp]: "fbind (Inl e) f = Inl e"
  by (simp add: fbind_def)

lemma fbind_Inr [simp]: "fbind (Inr x) f = f x"
  by (simp add: fbind_def)

lemma fbind_eq_Inr: "fbind r f = Inr y \<longleftrightarrow> (\<exists>x. r = Inr x \<and> f x = Inr y)"
  by (cases r) simp_all

lemma write_at_eq_Inr: "write_at xs k x = Inr ys \<longleftrightarrow> k < length xs \<and> ys = xs[k := x]"
  by (auto simp: write_at_def)

lemma fill_vertices_Inr:
  "fill_vertices m pa na ca tas i vs = Inr vs' \<Longrightarrow>
     length vs' = length vs \<and>
     (\<forall>k. i \<le> k \<and> k < num_points m \<longrightarrow>
        k < length vs \<and> make_vertex pa na ca tas k = Inr (vs' ! k)) \<and>
     (\<forall>k < i. vs' ! k = vs ! k)"
proof (induction m pa na ca tas i vs arbitrary: vs' rule: fill_vertices.induct)
  case (1 m pa na ca tas i vs)
  show ?case
  proof (cases "i < num_points m")
    case False
    with "1.prems" show ?thesis
      by (subst (asm) fill_vertices.simps) auto
  next
    case True
    with "1.prems" obtain v where
      mk: "make_vertex pa na ca tas i = Inr v" and
      len: "i < length vs" and
      rest: "fill_vertices m pa na ca tas (Suc i) (vs[i := v]) = Inr vs'"
      by (subst (asm) fill_vertices.simps) (auto simp: fbind_eq_Inr write_at_eq_Inr)
    note ih = "1.IH" [OF True rest]
    have at_i: "vs' ! i = v"
      using ih len by simp
    show ?thesis
    proof (intro conjI allI impI)
      show "length vs' = length vs" using ih by simp
    next
      fix k assume k: "i \<le> k \<and> k < num_points m"
      show "k < length vs"
      proof (cases "k = i")
        case True then show ?thesis using len by simp
      next
        case False
        with k ih show ?thesis by (simp add: Suc_le_eq)
      qed
    next
      fix k assume k: "i \<le> k \<and> k < num_points m"
      show "make_vertex pa na ca tas k = Inr (vs' ! k)"
      proof (cases "k = i")
        case True then show ?thesis using mk at_i by simp
      next
        case False
        with k have "Suc i \<le> k \<and> k < num_points m" by simp
        with ih show ?thesis by blast
      qed
    next
      fix k assume "k < i"
      then show "vs' ! k = vs ! k" using ih by simp
    qed
  qed
qed


lemma write_corners_unfold:
  "write_corners f i 0 xs =
     fbind (write_at xs (uint32 (i * 3)) (corner f 0)) (\<lambda>xs1.
     fbind (write_at xs1 (uint32 (i * 3 + 1)) (corner f 1)) (\<lambda>xs2.
     write_at xs2 (uint32 (i * 3 + 2)) (corner f 2)))"
proof -
  have e3: "write_corners f i (Suc (Suc (Suc 0))) ys = Inr ys" for ys
    by (subst write_corners.simps) simp
  have e2: "write_corners f i (Suc (Suc 0)) ys =
      write_at ys (uint32 (i * 3 + 2)) (corner f 2)" for ys
    by (subst write_corners.simps)
      (simp add: fbind_def e3 numeral_2_eq_2 split: sum.splits)
  have e1: "write_corners f i (Suc 0) ys =
      fbind (write_at ys (uint32 (i * 3 + 1)) (corner f 1))
        (\<lambda>xs2. write_at xs2 (uint32 (i * 3 + 2)) (corner f 2))" for ys
    by (subst write_corners.simps) (simp add: e2 [abs_def])
  show ?thesis
    by (subst write_corners.simps) (simp add: e1 [abs_def])
qed

lemma write_corners_Inr:
  assumes "write_corners f i 0 xs = Inr ys"
  shows "uint32 (i * 3) < length xs" "uint32 (i * 3 + 1) < length xs"
    "uint32 (i * 3 + 2) < length xs"
    "ys = xs[uint32 (i * 3) := corner f 0, uint32 (i * 3 + 1) := corner f 1,
             uint32 (i * 3 + 2) := corner f 2]"
  using assms by (auto simp: write_corners_unfold fbind_eq_Inr write_at_eq_Inr)

lemma fill_indices_bounds:
  "fill_indices m i xs = Inr ys \<Longrightarrow>
     length ys = length xs \<and>
     (\<forall>k. 3 * i \<le> k \<and> k < 3 * num_faces m \<longrightarrow> uint32 k < length xs)"
proof (induction m i xs arbitrary: ys rule: fill_indices.induct)
  case (1 m i xs)
  show ?case
  proof (cases "i < num_faces m")
    case False
    with "1.prems" show ?thesis
      by (subst (asm) fill_indices.simps) auto
  next
    case True
    with "1.prems" obtain xs1 where
      wc: "write_corners (faces m ! i) i 0 xs = Inr xs1" and
      rest: "fill_indices m (Suc i) xs1 = Inr ys"
      by (subst (asm) fill_indices.simps) (auto simp: fbind_eq_Inr)
    note ih = "1.IH" [OF True rest]
    note w = write_corners_Inr [OF wc]
    have len1: "length xs1 = length xs"
      using w(4) by simp
    show ?thesis
    proof (intro conjI allI impI)
      show "length ys = length xs" using ih len1 by simp
    next
      fix k assume k: "3 * i \<le> k \<and> k < 3 * num_faces m"
      show "uint32 k < length xs"
      proof (cases "k < 3 * i + 3")
        case True
        with k have "k = i * 3 \<or> k = i * 3 + 1 \<or> k = i * 3 + 2" by arith
        with w(1,2,3) show ?thesis by auto
      next
        case False
        with k have "3 * Suc i \<le> k \<and> k < 3 * num_faces m" by simp
        with ih len1 show ?thesis by simp
      qed
    qed
  qed
qed

lemma fill_indices_contents:
  "fill_indices m i xs = Inr ys \<Longrightarrow> 3 * num_faces m \<le> 2 ^ 32 \<Longrightarrow>
     (\<forall>k < 3 * i. ys ! k = xs ! k) \<and>
     (\<forall>f j. i \<le> f \<and> f < num_faces m \<and> j < 3 \<longrightarrow>
        ys ! (3 * f + j) = corner (faces m ! f) j)"
proof (induction m i xs arbitrary: ys rule: fill_indices.induct)
  case (1 m i xs)
  show ?case
  proof (cases "i < num_faces m")
    case False
    with "1.prems" show ?thesis
      by (subst (asm) fill_indices.simps) auto
  next
    case True
    with "1.prems" obtain xs1 where
      wc: "write_corners (faces m ! i) i 0 xs = Inr xs1" and
      rest: "fill_indices m (Suc i) xs1 = Inr ys"
      by (subst (asm) fill_indices.simps) (auto simp: fbind_eq_Inr)
    note ih = "1.IH" [OF True rest "1.prems"(2)]
    note w = write_corners_Inr [OF wc]
    have small: "i * 3 + 2 < 2 ^ 32"
      using True "1.prems"(2) by simp
    then have u: "uint32 (i * 3) = i * 3" "uint32 (i * 3 + 1) = i * 3 + 1"
      "uint32 (i * 3 + 2) = i * 3 + 2"
      by (simp_all add: uint32_def)
    have in_range: "i * 3 + 2 < length xs"
      using w(3) u by simp
    have xs1: "xs1 = xs[i * 3 := corner (faces m ! i) 0, i * 3 + 1 := corner (faces m ! i) 1,
        i * 3 + 2 := corner (faces m ! i) 2]"
      using w(4) u by simp
    have keep: "ys ! k = xs1 ! k" if "k < 3 * i + 3" for k
      using ih that by simp
    show ?thesis
    proof (intro conjI allI impI)
      fix k assume "k < 3 * i"
      then show "ys ! k = xs ! k"
        using keep [of k] xs1 by simp
    next
      fix f j :: nat assume fj: "i \<le> f \<and> f < num_faces m \<and> j < 3"
      show "ys ! (3 * f + j) = corner (faces m ! f) j"
      proof (cases "f = i")
        case False
        with fj have "Suc i \<le> f \<and> f < num_faces m \<and> j < 3" by simp
        with ih show ?thesis by blast
      next
        case True
        from fj have "j = 0 \<or> j = 1 \<or> j = 2" by arith
        then show ?thesis
          using keep [of "3 * i + j"] xs1 in_range True
          by (auto simp: mult.commute)
      qed
    qed
  qed
qed


lemma find_texcoords_full:
  "2 \<le> found \<Longrightarrow> find_texcoords as tas found = tas"
  by (cases as) simp_all

lemma find_texcoords_one:
  "find_texcoords as [x, y] (Suc 0) =
     [x, case filter (\<lambda>a. attribute_type a = TEX_COORD) as of [] \<Rightarrow> y | t # _ \<Rightarrow> Some t]"
  by (induction as) (simp_all add: find_texcoords_full)

lemma find_texcoords_none:
  "find_texcoords as [x, y] 0 =
     (case filter (\<lambda>a. attribute_type a = TEX_COORD) as of
        [] \<Rightarrow> [x, y]
      | t # ts \<Rightarrow> [Some t, case ts of [] \<Rightarrow> y | u # _ \<Rightarrow> Some u])"
  by (induction as) (simp_all add: find_texcoords_one)

lemma length_attr_value [simp]: "length (attr_value a k) = num_components a"
  by (simp add: attr_value_def)

lemma GetValue_eq_Inr:
  "GetValue a k dest = Inr r \<longleftrightarrow>
     num_components a \<le> length dest \<and> r = attr_value a k @ drop (num_components a) dest"
  by (auto simp: GetValue_def)

lemma memcpy_eq_Inr:
  "memcpy dst src n = Inr r \<longleftrightarrow>
     n \<le> length dst \<and> n \<le> length src \<and> r = take n src @ drop n dst"
  by (auto simp: memcpy_def)

lemma drop_zeros3: "drop n [0, 0, 0] = replicate (3 - n) (0::real)"
proof -
  have "[0, 0, 0] = replicate 3 (0::real)"
    by (simp add: numeral_3_eq_3)
  then show ?thesis by (simp only: drop_replicate)
qed

lemma drop_zeros2: "drop n [0, 0] = replicate (2 - n) (0::real)"
proof -
  have "[0, 0] = replicate 2 (0::real)"
    by (simp add: numeral_2_eq_2)
  then show ?thesis by (simp only: drop_replicate)
qed

lemma drop_zeros4: "drop n [0, 0, 0, 0] = replicate (4 - n) (0::real)"
proof -
  have "[0, 0, 0, 0] = replicate 4 (0::real)"
    by (simp add: numeral_eq_Suc)
  then show ?thesis by (simp only: drop_replicate)
qed

lemma pair_nth: "length xs = 2 \<Longrightarrow> [xs ! 0, xs ! Suc 0] = xs"
  by (cases xs; cases "tl xs") auto

lemma make_vertex_Inr:
  assumes "make_vertex pa na ca tas i = Inr v"
  shows "num_components pa \<le> 3"
    and "position v = attr_value pa (mapped_index pa i) @ replicate (3 - num_components pa) 0"
    and "normal v =
      (case na of
         Some a \<Rightarrow> attr_value a (mapped_index a i) @ replicate (3 - num_components a) 0
       | None \<Rightarrow> [0, 0, 1])"
    and "color v =
      (case ca of
         Some a \<Rightarrow>
           (if num_components a < 4
            then (attr_value a (mapped_index a i) @ replicate (4 - num_components a) 0)[3 := 1]
            else attr_value a (mapped_index a i))
       | None \<Rightarrow> [1, 1, 1, 1])"
    and "texcoord0 v =
      (case tas ! 0 of
         Some a \<Rightarrow> attr_value a (mapped_index a i) @ replicate (2 - num_components a) 0
       | None \<Rightarrow> [0, 0])"
    and "texcoord1 v =
      (case tas ! 1 of
         Some a \<Rightarrow> attr_value a (mapped_index a i) @ replicate (2 - num_components a) 0
       | None \<Rightarrow> [0, 0])"
    and "\<And>a. na = Some a \<Longrightarrow> num_components a \<le> 3"
    and "\<And>a. ca = Some a \<Longrightarrow> num_components a \<le> 4"
    and "\<And>a. tas ! 0 = Some a \<Longrightarrow> num_components a \<le> 2"
    and "\<And>a. tas ! 1 = Some a \<Longrightarrow> num_components a \<le> 2"
proof -
  from assms obtain v1 v2 v3 v4 where
    s1: "set_position pa i zero_vertex = Inr v1" and
    s2: "set_normal na i v1 = Inr v2" and
    s3: "set_color ca i v2 = Inr v3" and
    s4: "set_texcoord tas i 0 v3 = Inr v4" and
    s5: "set_texcoord tas i 1 v4 = Inr v"
    by (auto simp: make_vertex_def fbind_eq_Inr)
  from s1 have p: "num_components pa \<le> 3"
    "v1 = zero_vertex\<lparr>position :=
       attr_value pa (mapped_index pa i) @ replicate (3 - num_components pa) 0\<rparr>"
    by (auto simp: set_position_def fbind_eq_Inr GetValue_eq_Inr zero_vertex_def drop_zeros3)
  from s2 have n: "\<And>a. na = Some a \<Longrightarrow> num_components a \<le> 3"
    "v2 = v1\<lparr>normal := (case na of
         Some a \<Rightarrow> attr_value a (mapped_index a i) @ replicate (3 - num_components a) 0
       | None \<Rightarrow> [0, 0, 1])\<rparr>"
    by (auto simp: set_normal_def fbind_eq_Inr GetValue_eq_Inr p zero_vertex_def drop_zeros3
        split: option.splits)
  have c: "\<And>a. ca = Some a \<Longrightarrow> num_components a \<le> 4"
    "v3 = v2\<lparr>color := (case ca of
         Some a \<Rightarrow>
           (if num_components a < 4
            then (attr_value a (mapped_index a i) @ replicate (4 - num_components a) 0)[3 := 1]
            else attr_value a (mapped_index a i))
       | None \<Rightarrow> [1, 1, 1, 1])\<rparr>"
    using s3
    by (auto simp: set_color_def fbind_eq_Inr GetValue_eq_Inr memcpy_eq_Inr n p zero_vertex_def
        drop_zeros4 split: option.splits)
  have t0: "\<And>a. tas ! 0 = Some a \<Longrightarrow> num_components a \<le> 2"
    "v4 = v3\<lparr>texcoord0 := (case tas ! 0 of
         Some a \<Rightarrow> attr_value a (mapped_index a i) @ replicate (2 - num_components a) 0
       | None \<Rightarrow> [0, 0])\<rparr>"
    using s4
    by (auto simp: set_texcoord_def fbind_eq_Inr GetValue_eq_Inr c n p zero_vertex_def
        drop_zeros2 pair_nth split: option.splits)
  have t1: "\<And>a. tas ! 1 = Some a \<Longrightarrow> num_components a \<le> 2"
    "v = v4\<lparr>texcoord1 := (case tas ! 1 of
         Some a \<Rightarrow> attr_value a (mapped_index a i) @ replicate (2 - num_components a) 0
       | None \<Rightarrow> [0, 0])\<rparr>"
    using s5
    by (auto simp: set_texcoord_def fbind_eq_Inr GetValue_eq_Inr t0 c n p zero_vertex_def
        drop_zeros2 pair_nth split: option.splits)
  show "num_components pa \<le> 3" by (rule p)
  show "position v = attr_value pa (mapped_index pa i) @ replicate (3 - num_components pa) 0"
    by (simp add: t1 t0 c n p)
  show "normal v =
      (case na of
         Some a \<Rightarrow> attr_value a (mapped_index a i) @ replicate (3 - num_components a) 0
       | None \<Rightarrow> [0, 0, 1])"
    by (simp add: t1 t0 c n p)
  show "color v =
      (case ca of
         Some a \<Rightarrow>
           (if num_components a < 4
            then (attr_value a (mapped_index a i) @ replicate (4 - num_components a) 0)[3 := 1]
            else attr_value a (mapped_index a i))
       | None \<Rightarrow> [1, 1, 1, 1])"
    by (simp add: t1 t0 c n p)
  show "texcoord0 v =
      (case tas ! 0 of
         Some a \<Rightarrow> attr_value a (mapped_index a i) @ replicate (2 - num_components a) 0
       | None \<Rightarrow> [0, 0])"
    by (simp add: t1 t0 c n p)
  show "texcoord1 v =
      (case tas ! 1 of
         Some a \<Rightarrow> attr_value a (mapped_index a i) @ replicate (2 - num_components a) 0
       | None \<Rightarrow> [0, 0])"
    by (simp add: t1 t0 c n p)
  show "\<And>a. na = Some a \<Longrightarrow> num_components a \<le> 3" by (rule n)
  show "\<And>a. ca = Some a \<Longrightarrow> num_components a \<le> 4" by (rule c)
  show "\<And>a. tas ! 0 = Some a \<Longrightarrow> num_components a \<le> 2" by (rule t0)
  show "\<And>a. tas ! 1 = Some a \<Longrightarrow> num_components a \<le> 2" by (rule t1)
qed


lemma make_vertex_ok:
  assumes "num_components pa \<le> 3"
    and "\<And>a. na = Some a \<Longrightarrow> num_components a \<le> 3"
    and "\<And>a. ca = Some a \<Longrightarrow> num_components a \<le> 4"
    and "\<And>a. tas ! 0 = Some a \<Longrightarrow> num_components a \<le> 2"
    and "\<And>a. tas ! 1 = Some a \<Longrightarrow> num_components a \<le> 2"
  shows "\<exists>v. make_vertex pa na ca tas i = Inr v"
proof -
  obtain v1 where s1: "set_position pa i zero_vertex = Inr v1"
    using assms(1) by (simp add: set_position_def GetValue_def zero_vertex_def)
  obtain v2 where s2: "set_normal na i v1 = Inr v2"
    using assms(2) s1
    by (cases na)
      (auto simp: set_position_def set_normal_def GetValue_def zero_vertex_def
        split: if_splits)
  have len_color: "length (color v2) = 4"
    using s1 s2
    by (cases na)
      (auto simp: set_position_def set_normal_def GetValue_def zero_vertex_def
        split: if_splits)
  obtain v3 where s3: "set_color ca i v2 = Inr v3"
    using assms(3) len_color
    by (cases ca) (auto simp: set_color_def GetValue_def memcpy_def)
  have tex: "\<exists>v'. set_texcoord tas i tc v = Inr v'"
    if "\<And>a. tas ! tc = Some a \<Longrightarrow> num_components a \<le> 2" for tc v
  proof (cases "tas ! tc")
    case None
    then show ?thesis by (simp add: set_texcoord_def)
  next
    case (Some a)
    with that have "num_components a \<le> 2" by simp
    with Some show ?thesis by (simp add: set_texcoord_def GetValue_def)
  qed
  obtain v4 where s4: "set_texcoord tas i 0 v3 = Inr v4"
    using tex [OF assms(4)] by blast
  obtain v5 where s5: "set_texcoord tas i 1 v4 = Inr v5"
    using tex [OF assms(5)] by blast
  show ?thesis
    using s1 s2 s3 s4 s5 by (simp add: make_vertex_def)
qed

lemma fill_vertices_ok:
  "num_points m \<le> length vs \<Longrightarrow>
   (\<And>k. k < num_points m \<Longrightarrow> \<exists>v. make_vertex pa na ca tas k = Inr v) \<Longrightarrow>
   \<exists>vs'. fill_vertices m pa na ca tas i vs = Inr vs'"
proof (induction m pa na ca tas i vs rule: fill_vertices.induct)
  case (1 m pa na ca tas i vs)
  show ?case
  proof (cases "i < num_points m")
    case False
    then show ?thesis
      by (subst fill_vertices.simps) simp
  next
    case True
    then obtain v where mk: "make_vertex pa na ca tas i = Inr v"
      using "1.prems"(2) by blast
    have w: "write_at vs i v = Inr (vs[i := v])"
      using True "1.prems"(1) by (simp add: write_at_def)
    have "\<exists>vs'. fill_vertices m pa na ca tas (Suc i) (vs[i := v]) = Inr vs'"
      using "1.IH" [OF True, of "vs[i := v]"] "1.prems" by simp
    then show ?thesis
      by (subst fill_vertices.simps) (simp add: True mk w)
  qed
qed

lemma fill_indices_ok:
  "3 * num_faces m \<le> length xs \<Longrightarrow> 3 * num_faces m \<le> 2 ^ 32 \<Longrightarrow>
   \<exists>ys. fill_indices m i xs = Inr ys"
proof (induction m i xs rule: fill_indices.induct)
  case (1 m i xs)
  show ?case
  proof (cases "i < num_faces m")
    case False
    then show ?thesis
      by (subst fill_indices.simps) simp
  next
    case True
    have small: "i * 3 + 2 < 2 ^ 32" "i * 3 + 2 < length xs"
      using True "1.prems" by simp_all
    then have u: "uint32 (i * 3) = i * 3" "uint32 (i * 3 + 1) = i * 3 + 1"
      "uint32 (i * 3 + 2) = i * 3 + 2"
      by (simp_all add: uint32_def)
    define xs1 where "xs1 = xs[i * 3 := corner (faces m ! i) 0,
      i * 3 + 1 := corner (faces m ! i) 1, i * 3 + 2 := corner (faces m ! i) 2]"
    have len: "length xs1 = length xs"
      by (simp add: xs1_def)
    have wc: "write_corners (faces m ! i) i 0 xs = Inr xs1"
      unfolding write_corners_unfold u xs1_def
      using small(2) by (simp add: write_at_def)
    have "\<exists>ys. fill_indices m (Suc i) xs1 = Inr ys"
      using "1.IH" [OF True, of xs1] "1.prems" len by simp
    then show ?thesis
      by (subst fill_indices.simps) (simp add: True wc)
  qed
qed

lemma uint32_le: "uint32 n \<le> n"
  by (simp add: uint32_def)

lemma uint32_small: "n < 2 ^ 32 \<Longrightarrow> uint32 n = n"
  by (simp add: uint32_def)

lemma uint32_idem [simp]: "uint32 (uint32 n) = uint32 n"
  by (simp add: uint32_def)

lemma int_of_uint32_nonneg:
  "0 \<le> int_of_uint32 n \<Longrightarrow> uint32 n < 2 ^ 31 \<and> int_of_uint32 n = int (uint32 n)"
proof -
  assume a: "0 \<le> int_of_uint32 n"
  have "uint32 n < 2 ^ 32"
    by (simp add: uint32_def)
  then have "int (uint32 n) < 2 ^ 32"
    by (metis of_nat_less_iff of_nat_numeral of_nat_power)
  with a show ?thesis
    by (auto simp: int_of_uint32_def split: if_splits)
qed

lemma int_of_uint32_small: "n < 2 ^ 31 \<Longrightarrow> int_of_uint32 n = int n"
  by (simp add: int_of_uint32_def uint32_def)


lemma decode_mesh_unfold:
  "decode_mesh m pa s =
     (if int_of_uint32 (num_points m) < 0 then Inl BadArrayNewLength
      else fbind (fill_vertices m pa (GetNamedAttribute m NORMAL) (GetNamedAttribute m COLOR)
                    (find_texcoords (attributes m) [None, None] 0) 0
                    (replicate (nat (int_of_uint32 (num_points m))) zero_vertex)) (\<lambda>vs.
           if int_of_uint32 (num_faces m * 3) < 0 then Inl BadArrayNewLength
           else fbind (fill_indices m 0
                         (replicate (nat (int_of_uint32 (num_faces m * 3))) 0)) (\<lambda>xs.
                Inr (True,
                  \<lparr>heap = heap s @ [Some (VertexArray vs), Some (IndexArray xs)],
                   out = \<lparr>vertices = Addr (length (heap s)),
                          vertex_count = int_of_uint32 (num_points m),
                          indices = Addr (Suc (length (heap s))),
                          index_count = int_of_uint32 (num_faces m * 3)\<rparr>\<rparr>))))"
proof -
  have k: "int_of_uint32 (uint32 n) = int_of_uint32 n" for n
    by (simp add: int_of_uint32_def)
  have upd: "(h @ [a, b])[Suc (length h) := c] = h @ [a, c]" for h :: heap and a b c
    by (simp add: list_update_append)
  show ?thesis
    by (simp add: decode_mesh_def Let_def new_vertices_def new_indices_def new_array_def
        store_def k upd fbind_def split: sum.splits)
qed


lemma decode_mesh_Inr:
  assumes "decode_mesh m pa s = Inr (b, s')"
  shows "b"
    and "num_points m < 2 ^ 31"
    and "3 * num_faces m < 2 ^ 31"
    and "\<exists>vs xs.
      fill_vertices m pa (GetNamedAttribute m NORMAL) (GetNamedAttribute m COLOR)
        (find_texcoords (attributes m) [None, None] 0) 0
        (replicate (num_points m) zero_vertex) = Inr vs \<and>
      fill_indices m 0 (replicate (3 * num_faces m) 0) = Inr xs \<and>
      s' = \<lparr>heap = heap s @ [Some (VertexArray vs), Some (IndexArray xs)],
             out = \<lparr>vertices = Addr (length (heap s)),
                    vertex_count = int (num_points m),
                    indices = Addr (Suc (length (heap s))),
                    index_count = int (3 * num_faces m)\<rparr>\<rparr>"
proof -
  let ?n = "int_of_uint32 (num_points m)"
  let ?k = "int_of_uint32 (num_faces m * 3)"
  from assms obtain vs xs where
    n0: "0 \<le> ?n" and
    fv: "fill_vertices m pa (GetNamedAttribute m NORMAL) (GetNamedAttribute m COLOR)
        (find_texcoords (attributes m) [None, None] 0) 0
        (replicate (nat ?n) zero_vertex) = Inr vs" and
    k0: "0 \<le> ?k" and
    fi: "fill_indices m 0 (replicate (nat ?k) 0) = Inr xs" and
    b: "b" and
    s': "s' = \<lparr>heap = heap s @ [Some (VertexArray vs), Some (IndexArray xs)],
             out = \<lparr>vertices = Addr (length (heap s)), vertex_count = ?n,
                    indices = Addr (Suc (length (heap s))), index_count = ?k\<rparr>\<rparr>"
    by (auto simp: decode_mesh_unfold fbind_eq_Inr split: if_splits)
  note n = int_of_uint32_nonneg [OF n0]
  note k = int_of_uint32_nonneg [OF k0]
  have len_n: "nat ?n = uint32 (num_points m)"
    using n by simp
  have "num_points m \<le> uint32 (num_points m)"
  proof (rule ccontr)
    assume "\<not> num_points m \<le> uint32 (num_points m)"
    then have "uint32 (num_points m) < num_points m" by simp
    with fill_vertices_Inr [OF fv] len_n show False
      by (metis le0 length_replicate less_irrefl)
  qed
  with uint32_le [of "num_points m"] have eq_n: "uint32 (num_points m) = num_points m"
    by simp
  have len_k: "nat ?k = uint32 (num_faces m * 3)"
    using k by simp
  have "3 * num_faces m \<le> uint32 (num_faces m * 3)"
  proof (rule ccontr)
    assume "\<not> 3 * num_faces m \<le> uint32 (num_faces m * 3)"
    then have lt: "uint32 (num_faces m * 3) < 3 * num_faces m" by simp
    from fill_indices_bounds [OF fi]
    have "k < 3 * num_faces m \<Longrightarrow> uint32 k < nat ?k" for k
      by simp
    from this [OF lt] show False
      using len_k by simp
  qed
  with uint32_le [of "num_faces m * 3"] have eq_k: "uint32 (num_faces m * 3) = 3 * num_faces m"
    by simp
  show "b" by (rule b)
  show "num_points m < 2 ^ 31" using n eq_n by simp
  show "3 * num_faces m < 2 ^ 31" using k eq_k by simp
  show "\<exists>vs xs.
      fill_vertices m pa (GetNamedAttribute m NORMAL) (GetNamedAttribute m COLOR)
        (find_texcoords (attributes m) [None, None] 0) 0
        (replicate (num_points m) zero_vertex) = Inr vs \<and>
      fill_indices m 0 (replicate (3 * num_faces m) 0) = Inr xs \<and>
      s' = \<lparr>heap = heap s @ [Some (VertexArray vs), Some (IndexArray xs)],
             out = \<lparr>vertices = Addr (length (heap s)),
                    vertex_count = int (num_points m),
                    indices = Addr (Suc (length (heap s))),
                    index_count = int (3 * num_faces m)\<rparr>\<rparr>"
    using fv fi s' n k len_n len_k eq_n eq_k by auto
qed

lemma decode_mesh_ok:
  assumes "num_points m < 2 ^ 31" and "3 * num_faces m < 2 ^ 31"
    and "\<And>i. i < num_points m \<Longrightarrow>
      \<exists>v. make_vertex pa (GetNamedAttribute m NORMAL) (GetNamedAttribute m COLOR)
        (find_texcoords (attributes m) [None, None] 0) i = Inr v"
  shows "\<exists>s'. decode_mesh m pa s = Inr (True, s')"
proof -
  have n: "int_of_uint32 (num_points m) = int (num_points m)"
    using assms(1) by (rule int_of_uint32_small)
  have k: "int_of_uint32 (num_faces m * 3) = int (3 * num_faces m)"
    using assms(2) int_of_uint32_small [of "num_faces m * 3"] by (simp add: mult.commute)
  have n0: "\<not> int_of_uint32 (num_points m) < 0"
    and nn: "nat (int_of_uint32 (num_points m)) = num_points m"
    by (simp_all only: n nat_int of_nat_less_0_iff not_False_eq_True)
  have k0: "\<not> int_of_uint32 (num_faces m * 3) < 0"
    and nk: "nat (int_of_uint32 (num_faces m * 3)) = 3 * num_faces m"
    by (simp_all only: k nat_int of_nat_less_0_iff not_False_eq_True)
  obtain vs where fv:
    "fill_vertices m pa (GetNamedAttribute m NORMAL) (GetNamedAttribute m COLOR)
        (find_texcoords (attributes m) [None, None] 0) 0
        (replicate (num_points m) zero_vertex) = Inr vs"
    using fill_vertices_ok [of m "replicate (num_points m) zero_vertex", OF _ assms(3)]
    by auto
  have "3 * num_faces m \<le> (2::nat) ^ 32"
    using assms(2) by simp
  then obtain xs where fi: "fill_indices m 0 (replicate (3 * num_faces m) 0) = Inr xs"
    using fill_indices_ok [of m "replicate (3 * num_faces m) 0" 0] by auto
  show ?thesis
    unfolding decode_mesh_unfold
    by (simp only: n0 nn k0 nk fv fi if_False fbind_Inr) blast
qed

lemma decode_True:
  assumes "decode_draco_mesh_interleaved D data s = Inr (True, s')"
  shows "\<exists>m pa. D data = Some m \<and> GetNamedAttribute m POSITION = Some pa \<and>
    decode_mesh m pa s = Inr (True, s')"
  using assms
  by (auto simp: decode_draco_mesh_interleaved_def split: option.splits)

lemma ex_texcoords:
  "find_texcoords (attributes ex_mesh) [None, None] 0 = [Some (ex_uv 7), Some (ex_uv 8)]"
  by (simp add: ex_mesh_def ex_position_def ex_normal_def ex_color_def ex_uv_def)

lemma ex_named:
  "GetNamedAttribute ex_mesh POSITION = Some ex_position"
  "GetNamedAttribute ex_mesh NORMAL = Some ex_normal"
  "GetNamedAttribute ex_mesh COLOR = Some ex_color"
  by (simp_all add: GetNamedAttribute_def ex_mesh_def ex_position_def ex_normal_def ex_color_def ex_uv_def)

lemma upt_small:
  "[0..<2] = [0, Suc 0]" "[0..<3] = [0, Suc 0, 2]" "[0..<4] = [0, Suc 0, 2, 3]"
  by (simp_all add: upt_rec)

lemma ex_vertex:
  "make_vertex ex_position (Some ex_normal) (Some ex_color) [Some (ex_uv 7), Some (ex_uv 8)] i =
     Inr \<lparr>position = [real (10 * i), real (10 * i + 1), real (10 * i + 2)],
          normal = [1, 0, 0],
          color = [real (2 - i) / 4, real (2 - i + 1) / 4, 0, 1],
          texcoord0 = [real (700 + 10 * i), real (700 + 10 * i + 1)],
          texcoord1 = [real (800 + 10 * i), real (800 + 10 * i + 1)]\<rparr>"
  by (simp add: make_vertex_def set_position_def set_normal_def set_color_def set_texcoord_def
      GetValue_def memcpy_def attr_value_def zero_vertex_def upt_small
      ex_position_def ex_normal_def ex_color_def ex_uv_def)


lemma ex_counts: "num_points ex_mesh = 3" "num_faces ex_mesh = 2"
  "faces ex_mesh = [(0, 1, 2), (2, 1, 0)]"
  by (simp_all add: ex_mesh_def num_faces_def)

lemma ex_fill_vertices:
  "fill_vertices ex_mesh ex_position (Some ex_normal) (Some ex_color)
     [Some (ex_uv 7), Some (ex_uv 8)] 0 (replicate 3 zero_vertex) = Inr ex_vertices"
  apply (subst fill_vertices.simps, simp add: ex_counts ex_vertex write_at_def numeral_3_eq_3)
  apply (subst fill_vertices.simps, simp add: ex_counts ex_vertex write_at_def)
  apply (subst fill_vertices.simps, simp add: ex_counts ex_vertex write_at_def)
  apply (subst fill_vertices.simps, simp add: ex_counts ex_vertices_def)
  done


lemma ex_fill_indices:
  "fill_indices ex_mesh 0 (replicate 6 0) = Inr [0, 1, 2, 2, 1, 0]"
proof -
  have r: "replicate 6 (0::nat) = [0, 0, 0, 0, 0, 0]"
    by (simp add: numeral_eq_Suc)
  show ?thesis
    apply (subst fill_indices.simps,
        simp add: ex_counts write_corners_unfold write_at_def uint32_def corner_def)
    apply (subst fill_indices.simps,
        simp add: ex_counts write_corners_unfold write_at_def uint32_def corner_def)
    apply (subst fill_indices.simps, simp add: ex_counts)
    apply (simp add: r eval_nat_numeral)
    done
qed

lemma ex_decode:
  "decode_draco_mesh_interleaved (\<lambda>_. Some ex_mesh) data ex_state = Inr (True, ex_result)"
  by (simp add: decode_draco_mesh_interleaved_def ex_named decode_mesh_unfold ex_texcoords
      ex_counts int_of_uint32_def uint32_def ex_fill_vertices ex_fill_indices
      ex_state_def ex_result_def)


lemma find_texcoords_spec:
  "find_texcoords (attributes m) [None, None] 0 =
     [nth_attr (texcoord_sets m) 0, nth_attr (texcoord_sets m) 1]"
  by (simp add: find_texcoords_none texcoord_sets_def nth_attr_def split: list.splits)

lemma vertices_at_append:
  "vertices_at (h @ [Some (VertexArray vs), b]) (Addr (length h)) = Some vs"
  by (simp add: vertices_at_def lookup_def nth_append)

lemma indices_at_append:
  "indices_at (h @ [b, Some (IndexArray xs)]) (Addr (Suc (length h))) = Some xs"
  by (simp add: indices_at_def lookup_def nth_append)

lemma decode_success:
  assumes "decode_draco_mesh_interleaved D data s = Inr (True, s')" and "D data = Some m"
  obtains pa vs xs where
    "GetNamedAttribute m POSITION = Some pa"
    "vertices_at (heap s') (vertices (out s')) = Some vs"
    "indices_at (heap s') (indices (out s')) = Some xs"
    "vertex_count (out s') = int (num_points m)"
    "index_count (out s') = int (3 * num_faces m)"
    "length vs = num_points m"
    "\<And>i. i < num_points m \<Longrightarrow>
       make_vertex pa (GetNamedAttribute m NORMAL) (GetNamedAttribute m COLOR)
         [nth_attr (texcoord_sets m) 0, nth_attr (texcoord_sets m) 1] i = Inr (vs ! i)"
    "length xs = 3 * num_faces m"
    "\<And>f j. f < num_faces m \<Longrightarrow> j < 3 \<Longrightarrow> xs ! (3 * f + j) = corner (faces m ! f) j"
proof -
  from decode_True [OF assms(1)] assms(2) obtain pa where
    pa: "GetNamedAttribute m POSITION = Some pa" and
    dm: "decode_mesh m pa s = Inr (True, s')"
    by auto
  from decode_mesh_Inr(4) [OF dm] obtain vs xs where
    fv: "fill_vertices m pa (GetNamedAttribute m NORMAL) (GetNamedAttribute m COLOR)
        (find_texcoords (attributes m) [None, None] 0) 0
        (replicate (num_points m) zero_vertex) = Inr vs" and
    fi: "fill_indices m 0 (replicate (3 * num_faces m) 0) = Inr xs" and
    s': "s' = \<lparr>heap = heap s @ [Some (VertexArray vs), Some (IndexArray xs)],
             out = \<lparr>vertices = Addr (length (heap s)),
                    vertex_count = int (num_points m),
                    indices = Addr (Suc (length (heap s))),
                    index_count = int (3 * num_faces m)\<rparr>\<rparr>"
    by blast
  note v = fill_vertices_Inr [OF fv]
  have small: "3 * num_faces m \<le> 2 ^ 32"
    using decode_mesh_Inr(3) [OF dm] by simp
  note b = fill_indices_bounds [OF fi]
  note c = fill_indices_contents [OF fi small]
  show thesis
  proof (rule that [of pa vs xs])
    show "GetNamedAttribute m POSITION = Some pa" by (rule pa)
    show "vertices_at (heap s') (vertices (out s')) = Some vs"
      by (simp add: s' vertices_at_append)
    show "indices_at (heap s') (indices (out s')) = Some xs"
      by (simp add: s' indices_at_append)
    show "vertex_count (out s') = int (num_points m)" by (simp add: s')
    show "index_count (out s') = int (3 * num_faces m)" by (simp add: s')
    show "length vs = num_points m" using v by simp
    show "make_vertex pa (GetNamedAttribute m NORMAL) (GetNamedAttribute m COLOR)
         [nth_attr (texcoord_sets m) 0, nth_attr (texcoord_sets m) 1] i = Inr (vs ! i)"
      if "i < num_points m" for i
      using v that by (simp add: find_texcoords_spec)
    show "length xs = 3 * num_faces m" using b by simp
    show "xs ! (3 * f + j) = corner (faces m ! f) j" if "f < num_faces m" "j < 3" for f j
      using c that by simp
  qed
qed



text \<open>After a successful decode both pointers of the structure own their arrays.\<close>

lemma decode_owns_arrays:
  assumes "decode_draco_mesh_interleaved D data s = Inr (True, s')"
  shows "owns_arrays s'"
proof -
  from decode_True [OF assms] obtain m where "D data = Some m"
    by blast
  from decode_success [OF assms this] show ?thesis
    unfolding owns_arrays_def by (metis option.distinct(1))
qed

text \<open>
  The colour of a vertex after a successful decode, for every number of components of
  the colour attribute.
\<close>

lemma color_field:
  assumes "decode_draco_mesh_interleaved D data s = Inr (True, s')" and "D data = Some m"
    and "vertices_at (heap s') (vertices (out s')) = Some vs" and "i < num_points m"
  shows "color (vs ! i) =
    (case GetNamedAttribute m COLOR of
       Some a \<Rightarrow>
         (if num_components a < 4
          then (attr_value a (mapped_index a i) @ replicate (4 - num_components a) 0)[3 := 1]
          else attr_value a (mapped_index a i))
     | None \<Rightarrow> [1, 1, 1, 1])"
proof -
  from decode_success [OF assms(1,2)] assms(3,4) obtain pa where
    "make_vertex pa (GetNamedAttribute m NORMAL) (GetNamedAttribute m COLOR)
       [nth_attr (texcoord_sets m) 0, nth_attr (texcoord_sets m) 1] i = Inr (vs ! i)"
    by (metis option.inject)
  from make_vertex_Inr(4) [OF this] show ?thesis .
qed

text \<open>
  Two more meshes on which the function does not return: three times \<open>2 ^ 30\<close> faces is
  not an \<^verbatim>\<open>int\<close>, and a texture coordinate of three components does not fit
  \<^verbatim>\<open>float uv[2]\<close>.
\<close>

lemma decode_many_faces:
  "decode_draco_mesh_interleaved (\<lambda>_. Some ex_many_faces) data ex_state =
     Inl BadArrayNewLength"
proof -
  have p: "GetNamedAttribute ex_many_faces POSITION = Some ex_position"
    by (simp add: GetNamedAttribute_def ex_many_faces_def ex_position_def)
  have n: "num_points ex_many_faces = 0" "num_faces ex_many_faces = 2 ^ 30"
    by (simp_all add: ex_many_faces_def num_faces_def)
  have f: "fill_vertices ex_many_faces pa na ca tas 0 [] = Inr []" for pa na ca tas
    by (subst fill_vertices.simps) (simp add: n)
  show ?thesis
    by (simp add: decode_draco_mesh_interleaved_def p decode_mesh_unfold int_of_uint32_def
        uint32_def n f)
qed

lemma decode_wide_texcoord:
  "decode_draco_mesh_interleaved (\<lambda>_. Some ex_uvw) data ex_state = Inl OutOfBounds"
proof -
  have p: "GetNamedAttribute ex_uvw POSITION = Some ex_position"
    "GetNamedAttribute ex_uvw NORMAL = None" "GetNamedAttribute ex_uvw COLOR = None"
    by (simp_all add: GetNamedAttribute_def ex_uvw_def ex_position_def ex_wide_uv_def)
  have t: "find_texcoords (attributes ex_uvw) [None, None] 0 = [Some ex_wide_uv, None]"
    by (simp add: ex_uvw_def ex_position_def ex_wide_uv_def)
  have n: "num_points ex_uvw = 1" "num_faces ex_uvw = 0"
    by (simp_all add: ex_uvw_def num_faces_def)
  have v: "make_vertex ex_position None None [Some ex_wide_uv, None] 0 = Inl OutOfBounds"
    by (simp add: make_vertex_def set_position_def set_normal_def set_color_def
        set_texcoord_def GetValue_def ex_position_def ex_wide_uv_def zero_vertex_def)
  have f: "fill_vertices ex_uvw ex_position None None [Some ex_wide_uv, None] 0 vs =
      Inl OutOfBounds" for vs
    by (subst fill_vertices.simps) (simp add: n v)
  show ?thesis
    by (simp add: decode_draco_mesh_interleaved_def p decode_mesh_unfold int_of_uint32_def
        uint32_def n t f)
qed

text \<open>
  Every vertex of a successful decode has the sizes of the five arrays of
  \<^verbatim>\<open>struct Vertex\<close>: 3 + 3 + 4 + 2 + 2 floats.
\<close>

lemma vertex_lengths:
  assumes "decode_draco_mesh_interleaved D data s = Inr (True, s')" and "D data = Some m"
    and "vertices_at (heap s') (vertices (out s')) = Some vs" and "i < num_points m"
  shows "length (position (vs ! i)) = 3 \<and> length (normal (vs ! i)) = 3 \<and>
    length (color (vs ! i)) = 4 \<and> length (texcoord0 (vs ! i)) = 2 \<and>
    length (texcoord1 (vs ! i)) = 2"
proof -
  from decode_success [OF assms(1,2)] assms(3,4) obtain pa where
    mk: "make_vertex pa (GetNamedAttribute m NORMAL) (GetNamedAttribute m COLOR)
       [nth_attr (texcoord_sets m) 0, nth_attr (texcoord_sets m) 1] i = Inr (vs ! i)"
    by (metis option.inject)
  note f = make_vertex_Inr [OF mk]
  have "length (position (vs ! i)) = 3"
    using f(1) by (simp add: f(2))
  moreover have "length (normal (vs ! i)) = 3"
    using f(7) by (simp add: f(3) split: option.splits)
  moreover have "length (color (vs ! i)) = 4"
    using f(8) by (auto simp: f(4) split: option.splits)
  moreover have "length (texcoord0 (vs ! i)) = 2"
    using f(9) by (simp add: f(5) split: option.splits)
  moreover have "length (texcoord1 (vs ! i)) = 2"
    using f(10) by (simp add: f(6) split: option.splits)
  ultimately show ?thesis by simp
qed

subsection \<open>Failure of the decoder\<close>

text \<open>
  Claim C1. \<^verbatim>\<open>decode_draco_mesh_interleaved\<close> returns \<^verbatim>\<open>false\<close> exactly when the Draco
  decoder rejects the stream or the decoded mesh has no position attribute, and when it
  returns \<^verbatim>\<open>false\<close> the state is the one it was called in: no field of \<^verbatim>\<open>*out\<close> has
  been written and the heap holds the same arrays, so nothing has been allocated.
\<close>

theorem decode_failure:
  "((\<exists>s'. decode_draco_mesh_interleaved D data s = Inr (False, s')) \<longleftrightarrow>
      (D data = None \<or> (\<exists>m. D data = Some m \<and> GetNamedAttribute m POSITION = None))) \<and>
   (\<forall>s'. decode_draco_mesh_interleaved D data s = Inr (False, s') \<longrightarrow>
      heap s' = heap s \<and> out s' = out s)"
proof (cases "D data")
  case None
  then show ?thesis
    by (simp add: decode_draco_mesh_interleaved_def)
next
  case (Some m)
  show ?thesis
  proof (cases "GetNamedAttribute m POSITION")
    case None
    with Some show ?thesis
      by (simp add: decode_draco_mesh_interleaved_def)
  next
    case (Some pa)
    have "decode_mesh m pa s \<noteq> Inr (False, s')" for s'
      using decode_mesh_Inr(1) [of m pa s False s'] by blast
    with Some \<open>D data = Some m\<close> show ?thesis
      by (simp add: decode_draco_mesh_interleaved_def)
  qed
qed

theorem decode_failure_witness:
  "GetNamedAttribute ex_no_position POSITION = None \<and>
   decode_draco_mesh_interleaved (\<lambda>_. Some ex_no_position) [68, 82] ex_state =
     Inr (False, ex_state)"
proof -
  have h: "GetNamedAttribute ex_no_position POSITION = None"
    by (simp add: GetNamedAttribute_def ex_no_position_def ex_normal_def ex_color_def)
  from decode_failure [of "\<lambda>_. Some ex_no_position" "[68, 82]" ex_state] h
  obtain s' where
    r: "decode_draco_mesh_interleaved (\<lambda>_. Some ex_no_position) [68, 82] ex_state =
      Inr (False, s')" and
    u: "heap s' = heap ex_state \<and> out s' = out ex_state"
    by blast
  from u have "s' = ex_state" by simp
  with r h show ?thesis by simp
qed

subsection \<open>The two counts\<close>

text \<open>
  Claim C2, as stated, promises success with \<^verbatim>\<open>vertex_count == N\<close> and
  \<^verbatim>\<open>index_count == 3 * F\<close> for every mesh the decoder accepts that has a position
  attribute. \<^verbatim>\<open>vertex_count\<close> is an \<^verbatim>\<open>int\<close>: for a mesh of \<open>2 ^ 31\<close> points the
  conversion of the point count gives \<open>- 2 ^ 31\<close>, and \<^verbatim>\<open>new Vertex[num_points]\<close> throws
  instead of returning.
\<close>

theorem decode_counts_counterexample:
  "GetNamedAttribute ex_huge POSITION \<noteq> None \<and>
   \<not> (\<exists>s'. decode_draco_mesh_interleaved (\<lambda>_. Some ex_huge) [] ex_state = Inr (True, s') \<and>
          vertex_count (out s') = int (num_points ex_huge) \<and>
          index_count (out s') = int (3 * num_faces ex_huge))"
proof -
  have p: "GetNamedAttribute ex_huge POSITION = Some ex_position"
    by (simp add: GetNamedAttribute_def ex_huge_def ex_position_def)
  have n: "num_points ex_huge = 2 ^ 31"
    by (simp add: ex_huge_def)
  have "decode_draco_mesh_interleaved (\<lambda>_. Some ex_huge) [] ex_state = Inl BadArrayNewLength"
    by (simp add: decode_draco_mesh_interleaved_def p decode_mesh_unfold int_of_uint32_def
        uint32_def n)
  with p show ?thesis by simp
qed

text \<open>
  Claim C2, amended. When the point count and three times the face count are below
  \<open>2 ^ 31\<close> and every attribute the bridge reads fits the array its entries are copied
  to, the function returns \<^verbatim>\<open>true\<close> with \<^verbatim>\<open>vertex_count\<close> the number of points and
  \<^verbatim>\<open>index_count\<close> three times the number of faces.
\<close>

theorem decode_counts:
  assumes "D data = Some m" and "GetNamedAttribute m POSITION \<noteq> None"
    and "num_points m < 2 ^ 31" and "3 * num_faces m < 2 ^ 31" and "components_fit m"
  shows "\<exists>s'. decode_draco_mesh_interleaved D data s = Inr (True, s') \<and>
    vertex_count (out s') = int (num_points m) \<and>
    index_count (out s') = int (3 * num_faces m)"
proof -
  from assms(2) obtain pa where pa: "GetNamedAttribute m POSITION = Some pa"
    by blast
  have "\<exists>v. make_vertex pa (GetNamedAttribute m NORMAL) (GetNamedAttribute m COLOR)
      (find_texcoords (attributes m) [None, None] 0) i = Inr v" for i
    using assms(5) pa
    by (intro make_vertex_ok) (simp_all add: components_fit_def at_most_def find_texcoords_spec)
  from decode_mesh_ok [OF assms(3,4) this]
  obtain s' where dm: "decode_mesh m pa s = Inr (True, s')"
    by blast
  then have d: "decode_draco_mesh_interleaved D data s = Inr (True, s')"
    by (simp add: decode_draco_mesh_interleaved_def assms(1) pa)
  from decode_success [OF d assms(1)]
  have "vertex_count (out s') = int (num_points m) \<and>
    index_count (out s') = int (3 * num_faces m)"
    by metis
  with d show ?thesis by blast
qed

theorem decode_counts_witness:
  "GetNamedAttribute ex_mesh POSITION \<noteq> None \<and> num_points ex_mesh < 2 ^ 31 \<and>
   3 * num_faces ex_mesh < 2 ^ 31 \<and> components_fit ex_mesh \<and>
   (\<exists>s'. decode_draco_mesh_interleaved (\<lambda>_. Some ex_mesh) [] ex_state = Inr (True, s') \<and>
      vertex_count (out s') = 3 \<and> index_count (out s') = 6)"
proof -
  have tc: "texcoord_sets ex_mesh = [ex_uv 7, ex_uv 8, ex_uv 9]"
    by (simp add: texcoord_sets_def ex_mesh_def ex_position_def ex_normal_def ex_color_def
        ex_uv_def)
  have h: "GetNamedAttribute ex_mesh POSITION \<noteq> None" "num_points ex_mesh < 2 ^ 31"
    "3 * num_faces ex_mesh < 2 ^ 31" "components_fit ex_mesh"
    by (simp_all add: ex_named ex_counts components_fit_def at_most_def nth_attr_def tc)
      (simp_all add: ex_position_def ex_normal_def ex_color_def ex_uv_def)
  from decode_counts [of "\<lambda>_. Some ex_mesh" "[]" ex_mesh ex_state, OF refl h] h
  show ?thesis by (simp add: ex_counts)
qed

subsection \<open>The index array\<close>

text \<open>
  Claim C3. After a successful decode of a mesh whose faces refer to points of the mesh
  only, every entry of the index array is at least 0 and below \<^verbatim>\<open>vertex_count\<close>.
\<close>

theorem indices_in_range:
  assumes "decode_draco_mesh_interleaved D data s = Inr (True, s')" and "D data = Some m"
    and "faces_valid m"
  shows "\<exists>xs. indices_at (heap s') (indices (out s')) = Some xs \<and>
    (\<forall>x \<in> set xs. 0 \<le> int x \<and> int x < vertex_count (out s'))"
proof -
  from decode_success [OF assms(1,2)] obtain xs where
    at: "indices_at (heap s') (indices (out s')) = Some xs" and
    vc: "vertex_count (out s') = int (num_points m)" and
    len: "length xs = 3 * num_faces m" and
    nth: "\<And>f j. f < num_faces m \<Longrightarrow> j < 3 \<Longrightarrow> xs ! (3 * f + j) = corner (faces m ! f) j"
    by metis
  have valid: "corner (faces m ! f) j < num_points m" if "f < num_faces m" "j < 3" for f j
  proof -
    from that(1) have "faces m ! f \<in> set (faces m)"
      by (simp add: num_faces_def)
    with assms(3) have "corner (faces m ! f) 0 < num_points m \<and>
        corner (faces m ! f) 1 < num_points m \<and> corner (faces m ! f) 2 < num_points m"
      by (simp add: faces_valid_def list_all_iff)
    moreover from that(2) have "j = 0 \<or> j = 1 \<or> j = 2" by arith
    ultimately show ?thesis by auto
  qed
  have "int x < vertex_count (out s')" if "x \<in> set xs" for x
  proof -
    from that obtain k where k: "k < length xs" "x = xs ! k"
      by (auto simp: in_set_conv_nth)
    have "k = 3 * (k div 3) + k mod 3" by simp
    moreover have "k div 3 < num_faces m" using k(1) len by simp
    moreover have "k mod 3 < 3" by simp
    ultimately have "xs ! k = corner (faces m ! (k div 3)) (k mod 3)"
      using nth [of "k div 3" "k mod 3"] by simp
    with valid [of "k div 3" "k mod 3"] \<open>k div 3 < num_faces m\<close> k(2) vc
    show ?thesis by simp
  qed
  with at show ?thesis by simp
qed

theorem indices_in_range_witness:
  "decode_draco_mesh_interleaved (\<lambda>_. Some ex_mesh) [] ex_state = Inr (True, ex_result) \<and>
   faces_valid ex_mesh \<and>
   indices_at (heap ex_result) (indices (out ex_result)) = Some [0, 1, 2, 2, 1, 0] \<and>
   vertex_count (out ex_result) = 3 \<and>
   (\<exists>xs. indices_at (heap ex_result) (indices (out ex_result)) = Some xs \<and>
      list_all (\<lambda>x. 0 \<le> int x \<and> int x < vertex_count (out ex_result)) xs)"
proof -
  have v: "faces_valid ex_mesh"
    by (simp add: faces_valid_def ex_counts corner_def)
  have a: "indices_at (heap ex_result) (indices (out ex_result)) = Some [0, 1, 2, 2, 1, 0]"
    by (simp add: ex_result_def indices_at_def lookup_def)
  from indices_in_range [OF ex_decode refl v] ex_decode v a
  show ?thesis by (simp add: list_all_iff ex_result_def)
qed

subsection \<open>The fields of a vertex\<close>

text \<open>
  Claim C5. After a successful decode, the normal of vertex \<open>i\<close> is the entry of the
  normal attribute at the mapped index of point \<open>i\<close> (for an attribute of three
  components these are its three floats, copied as they are; an attribute of fewer
  components leaves zeros behind them), and \<open>(0, 0, 1)\<close> when the mesh has no normal
  attribute.
\<close>

theorem normal_field:
  assumes "decode_draco_mesh_interleaved D data s = Inr (True, s')" and "D data = Some m"
    and "vertices_at (heap s') (vertices (out s')) = Some vs" and "i < num_points m"
  shows "case GetNamedAttribute m NORMAL of
      Some a \<Rightarrow>
        normal (vs ! i) =
          attr_value a (mapped_index a i) @ replicate (3 - num_components a) 0 \<and>
        (num_components a = 3 \<longrightarrow> normal (vs ! i) = attr_value a (mapped_index a i))
    | None \<Rightarrow> normal (vs ! i) = [0, 0, 1]"
proof -
  from decode_success [OF assms(1,2)] assms(3,4) obtain pa where
    "make_vertex pa (GetNamedAttribute m NORMAL) (GetNamedAttribute m COLOR)
       [nth_attr (texcoord_sets m) 0, nth_attr (texcoord_sets m) 1] i = Inr (vs ! i)"
    by (metis option.inject)
  from make_vertex_Inr(3) [OF this] show ?thesis
    by (simp split: option.splits)
qed

theorem normal_field_witness:
  "decode_draco_mesh_interleaved (\<lambda>_. Some ex_mesh) [] ex_state = Inr (True, ex_result) \<and>
   vertices_at (heap ex_result) (vertices (out ex_result)) = Some ex_vertices \<and>
   GetNamedAttribute ex_mesh NORMAL = Some ex_normal \<and> num_components ex_normal = 3 \<and>
   attr_value ex_normal (mapped_index ex_normal 1) = [1, 0, 0] \<and>
   normal (ex_vertices ! 1) = attr_value ex_normal (mapped_index ex_normal 1)"
proof -
  have a: "vertices_at (heap ex_result) (vertices (out ex_result)) = Some ex_vertices"
    by (simp add: ex_result_def vertices_at_def lookup_def)
  have n: "num_components ex_normal = 3"
    "attr_value ex_normal (mapped_index ex_normal 1) = [1, 0, 0]"
    by (simp_all add: ex_normal_def attr_value_def upt_small)
  from normal_field [OF ex_decode refl a, of 1] ex_decode a n
  show ?thesis by (simp add: ex_named ex_counts)
qed

text \<open>
  Claim C6. The two entries of \<^verbatim>\<open>texcoord_attrs\<close> after the scan are the first and the
  second texture-coordinate attribute in the order of the mesh's attribute list. After a
  successful decode, \<^verbatim>\<open>texcoord0\<close> of vertex \<open>i\<close> is the entry of the first of them and
  \<^verbatim>\<open>texcoord1\<close> the entry of the second, each at the mapped index of point \<open>i\<close> (an
  attribute of one component leaves a zero behind it), and \<open>(0, 0)\<close> when there is no
  such attribute.
\<close>

theorem texcoord_fields:
  assumes "decode_draco_mesh_interleaved D data s = Inr (True, s')" and "D data = Some m"
    and "vertices_at (heap s') (vertices (out s')) = Some vs" and "i < num_points m"
  shows "find_texcoords (attributes m) [None, None] 0 =
      [nth_attr (texcoord_sets m) 0, nth_attr (texcoord_sets m) 1] \<and>
    texcoord0 (vs ! i) =
      (case nth_attr (texcoord_sets m) 0 of
         Some a \<Rightarrow> attr_value a (mapped_index a i) @ replicate (2 - num_components a) 0
       | None \<Rightarrow> [0, 0]) \<and>
    texcoord1 (vs ! i) =
      (case nth_attr (texcoord_sets m) 1 of
         Some a \<Rightarrow> attr_value a (mapped_index a i) @ replicate (2 - num_components a) 0
       | None \<Rightarrow> [0, 0])"
proof -
  from decode_success [OF assms(1,2)] assms(3,4) obtain pa where
    "make_vertex pa (GetNamedAttribute m NORMAL) (GetNamedAttribute m COLOR)
       [nth_attr (texcoord_sets m) 0, nth_attr (texcoord_sets m) 1] i = Inr (vs ! i)"
    by (metis option.inject)
  from make_vertex_Inr(5,6) [OF this] show ?thesis
    by (simp add: find_texcoords_spec)
qed

theorem texcoord_fields_witness:
  "decode_draco_mesh_interleaved (\<lambda>_. Some ex_mesh) [] ex_state = Inr (True, ex_result) \<and>
   vertices_at (heap ex_result) (vertices (out ex_result)) = Some ex_vertices \<and>
   texcoord_sets ex_mesh = [ex_uv 7, ex_uv 8, ex_uv 9] \<and>
   find_texcoords (attributes ex_mesh) [None, None] 0 = [Some (ex_uv 7), Some (ex_uv 8)] \<and>
   texcoord0 (ex_vertices ! 2) = attr_value (ex_uv 7) (mapped_index (ex_uv 7) 2) \<and>
   texcoord1 (ex_vertices ! 2) = attr_value (ex_uv 8) (mapped_index (ex_uv 8) 2) \<and>
   texcoord0 (ex_vertices ! 2) = [720, 721] \<and> texcoord1 (ex_vertices ! 2) = [820, 821]"
proof -
  have a: "vertices_at (heap ex_result) (vertices (out ex_result)) = Some ex_vertices"
    by (simp add: ex_result_def vertices_at_def lookup_def)
  have tc: "texcoord_sets ex_mesh = [ex_uv 7, ex_uv 8, ex_uv 9]"
    by (simp add: texcoord_sets_def ex_mesh_def ex_position_def ex_normal_def ex_color_def
        ex_uv_def)
  have n: "nth_attr [ex_uv 7, ex_uv 8, ex_uv 9] 0 = Some (ex_uv 7)"
    "nth_attr [ex_uv 7, ex_uv 8, ex_uv 9] (Suc 0) = Some (ex_uv 8)"
    by (simp_all add: nth_attr_def)
  have v: "attr_value (ex_uv 7) (mapped_index (ex_uv 7) 2) = [720, 721]"
    "attr_value (ex_uv 8) (mapped_index (ex_uv 8) 2) = [820, 821]"
    "num_components (ex_uv 7) = 2" "num_components (ex_uv 8) = 2"
    by (simp_all add: ex_uv_def attr_value_def upt_small)
  from texcoord_fields [OF ex_decode refl a, of 2] ex_decode a
  show ?thesis by (simp add: ex_counts tc n v)
qed

subsection \<open>The triangles\<close>

text \<open>
  Claim C7. After a successful decode the index array has three entries for each face,
  and the entry at position \<open>f * 3 + j\<close> is the point index of corner \<open>j\<close> of face \<open>f\<close>,
  for every face \<open>f\<close> and every corner \<open>j\<close> of 0, 1, 2.
\<close>

theorem index_array:
  assumes "decode_draco_mesh_interleaved D data s = Inr (True, s')" and "D data = Some m"
  shows "\<exists>xs. indices_at (heap s') (indices (out s')) = Some xs \<and>
    length xs = 3 * num_faces m \<and>
    (\<forall>f j. f < num_faces m \<and> j < 3 \<longrightarrow> xs ! (f * 3 + j) = corner (faces m ! f) j)"
proof -
  from decode_success [OF assms] obtain xs where
    "indices_at (heap s') (indices (out s')) = Some xs" and
    "length xs = 3 * num_faces m" and
    "\<And>f j. f < num_faces m \<Longrightarrow> j < 3 \<Longrightarrow> xs ! (3 * f + j) = corner (faces m ! f) j"
    by metis
  then show ?thesis
    by (auto simp: mult.commute)
qed

theorem index_array_witness:
  "decode_draco_mesh_interleaved (\<lambda>_. Some ex_mesh) [] ex_state = Inr (True, ex_result) \<and>
   faces ex_mesh = [(0, 1, 2), (2, 1, 0)] \<and>
   (\<exists>xs. indices_at (heap ex_result) (indices (out ex_result)) = Some xs \<and>
      length xs = 6 \<and> xs ! (1 * 3 + 0) = 2 \<and> xs ! (1 * 3 + 1) = 1 \<and> xs ! (1 * 3 + 2) = 0)"
proof -
  from index_array [OF ex_decode refl] obtain xs where
    x: "indices_at (heap ex_result) (indices (out ex_result)) = Some xs"
      "length xs = 3 * num_faces ex_mesh"
      "\<And>f j. f < num_faces ex_mesh \<and> j < 3 \<Longrightarrow> xs ! (f * 3 + j) = corner (faces ex_mesh ! f) j"
    by blast
  have "xs ! (1 * 3 + 0) = 2" "xs ! (1 * 3 + 1) = 1" "xs ! (1 * 3 + 2) = 0"
    using x(3) [of 1 0] x(3) [of 1 1] x(3) [of 1 2]
    by (simp_all add: ex_counts corner_def)
  with x(1,2) ex_decode show ?thesis
    by (auto simp: ex_counts)
qed

subsection \<open>The colour of a vertex\<close>

text \<open>
  Claim C9. After a successful decode of a mesh whose colour attribute has fewer than
  three components, the colour of vertex \<open>i\<close> starts with the components of the
  attribute's entry at the mapped index of point \<open>i\<close>, its last component (alpha) is
  1, and the components between stay 0, as \<^verbatim>\<open>Vertex v = {}\<close> left them.
\<close>

theorem color_short:
  assumes "decode_draco_mesh_interleaved D data s = Inr (True, s')" and "D data = Some m"
    and "vertices_at (heap s') (vertices (out s')) = Some vs" and "i < num_points m"
    and "GetNamedAttribute m COLOR = Some a" and "num_components a < 3"
  shows "color (vs ! i) =
    attr_value a (mapped_index a i) @ replicate (3 - num_components a) 0 @ [1]"
proof -
  from decode_success [OF assms(1,2)] assms(3,4) obtain pa where
    "make_vertex pa (GetNamedAttribute m NORMAL) (GetNamedAttribute m COLOR)
       [nth_attr (texcoord_sets m) 0, nth_attr (texcoord_sets m) 1] i = Inr (vs ! i)"
    by (metis option.inject)
  from make_vertex_Inr(4) [OF this] assms(5,6)
  have c: "color (vs ! i) =
      (attr_value a (mapped_index a i) @ replicate (4 - num_components a) 0)[3 := 1]"
    by simp
  define front where
    "front = attr_value a (mapped_index a i) @ replicate (3 - num_components a) 0"
  have "4 - num_components a = Suc (3 - num_components a)"
    using assms(6) by simp
  then have eq: "attr_value a (mapped_index a i) @ replicate (4 - num_components a) 0 =
      front @ [0]"
    by (simp add: front_def replicate_append_same)
  have len: "length front = 3"
    using assms(6) by (simp add: front_def)
  from c have "color (vs ! i) = (front @ [0])[3 := 1]"
    by (simp only: eq)
  then have "color (vs ! i) = (front @ [0])[length front := 1]"
    by (simp only: len)
  then have "color (vs ! i) = front @ [1]"
    by (simp only: list_update_length)
  then show ?thesis
    by (simp add: front_def)
qed

theorem color_short_witness:
  "decode_draco_mesh_interleaved (\<lambda>_. Some ex_mesh) [] ex_state = Inr (True, ex_result) \<and>
   vertices_at (heap ex_result) (vertices (out ex_result)) = Some ex_vertices \<and>
   GetNamedAttribute ex_mesh COLOR = Some ex_color \<and> num_components ex_color = 2 \<and>
   attr_value ex_color (mapped_index ex_color 1) = [1 / 4, 1 / 2] \<and>
   color (ex_vertices ! 1) = [1 / 4, 1 / 2, 0, 1]"
proof -
  have a: "vertices_at (heap ex_result) (vertices (out ex_result)) = Some ex_vertices"
    by (simp add: ex_result_def vertices_at_def lookup_def)
  have n: "num_components ex_color = 2"
    "attr_value ex_color (mapped_index ex_color 1) = [1 / 4, 1 / 2]"
    by (simp_all add: ex_color_def attr_value_def upt_small)
  have "color (ex_vertices ! 1) =
      attr_value ex_color (mapped_index ex_color 1) @
        replicate (3 - num_components ex_color) 0 @ [1]"
    by (rule color_short [OF ex_decode refl a _ ex_named(3)]) (simp_all add: ex_counts n)
  with ex_decode a n ex_named(3) show ?thesis by simp
qed

text \<open>
  Claim C4 says that the colour components the attribute does not provide are set to 1.
  The function prepares a buffer of four ones for that, and the branch without a colour
  attribute writes four ones, but \<^verbatim>\<open>memcpy\<close> takes only \<^verbatim>\<open>num_components\<close> floats out of
  the buffer and only the alpha component is set afterwards. For the colour attribute of
  \<open>ex_mesh\<close>, of two components, the third component of every vertex colour is 0.
\<close>

theorem color_two_components:
  "GetNamedAttribute ex_mesh COLOR = Some ex_color \<and> num_components ex_color = 2 \<and>
   decode_draco_mesh_interleaved (\<lambda>_. Some ex_mesh) [] ex_state = Inr (True, ex_result) \<and>
   vertices_at (heap ex_result) (vertices (out ex_result)) = Some ex_vertices \<and>
   attr_value ex_color (mapped_index ex_color 0) = [1 / 2, 3 / 4] \<and>
   color (ex_vertices ! 0) = [1 / 2, 3 / 4, 0, 1] \<and>
   color (ex_vertices ! 0) \<noteq> [1 / 2, 3 / 4, 1, 1]"
  by (simp add: ex_named ex_decode)
    (simp add: ex_color_def attr_value_def upt_small ex_result_def vertices_at_def lookup_def
      ex_vertices_def)

subsection \<open>Release\<close>

text \<open>
  Claim C8. On a structure whose two pointers own their arrays (each is null or leads to
  a live array), \<^verbatim>\<open>free_decoded_mesh\<close> frees both arrays and nothing else, and leaves
  both pointers null and both counts zero. On a structure that is already cleared it
  returns without a fault and changes nothing.
\<close>

theorem release:
  "(owns_arrays s \<longrightarrow>
      (\<exists>h'. free_decoded_mesh s = Inr \<lparr>heap = h', out = cleared\<rparr> \<and>
         (\<forall>a. lookup h' a =
            (if vertices (out s) = Addr a \<or> indices (out s) = Addr a then None
             else lookup (heap s) a)))) \<and>
   (out s = cleared \<longrightarrow> free_decoded_mesh s = Inr s)"
proof -
  obtain h d where s: "s = \<lparr>heap = h, out = d\<rparr>"
    by (cases s)
  have upd: "lookup (g[a := None]) b = (if a = b then None else lookup g b)" for g a b
    by (simp add: lookup_def)
  have again: "free_decoded_mesh s = Inr s" if "out s = cleared"
    using that by (simp add: s free_decoded_mesh_def delete_array_def is_vertices_def is_indices_def cleared_def)
  have first: "\<exists>h'. free_decoded_mesh s = Inr \<lparr>heap = h', out = cleared\<rparr> \<and>
         (\<forall>a. lookup h' a =
            (if vertices (out s) = Addr a \<or> indices (out s) = Addr a then None
             else lookup (heap s) a))" if o: "owns_arrays s"
  proof (cases "vertices d")
    case Null
    show ?thesis
    proof (cases "indices d")
      case Null
      with \<open>vertices d = Null\<close> show ?thesis
        by (simp add: s free_decoded_mesh_def delete_array_def is_vertices_def is_indices_def cleared_def)
    next
      case (Addr b)
      with o obtain xs where "lookup h b = Some (IndexArray xs)"
        by (auto simp: s owns_arrays_def indices_at_def split: option.splits block.splits)
      with Addr \<open>vertices d = Null\<close> show ?thesis
        by (simp add: s free_decoded_mesh_def delete_array_def is_vertices_def is_indices_def cleared_def upd)
    qed
  next
    case (Addr a)
    with o obtain vs where va: "lookup h a = Some (VertexArray vs)"
      by (auto simp: s owns_arrays_def vertices_at_def split: option.splits block.splits)
    show ?thesis
    proof (cases "indices d")
      case Null
      with Addr va show ?thesis
        by (simp add: s free_decoded_mesh_def delete_array_def is_vertices_def is_indices_def cleared_def upd)
    next
      case (Addr b)
      with o obtain xs where xb: "lookup h b = Some (IndexArray xs)"
        by (auto simp: s owns_arrays_def indices_at_def split: option.splits block.splits)
      with va have "a \<noteq> b" by auto
      with Addr \<open>vertices d = Addr a\<close> va xb show ?thesis
        by (auto simp: s free_decoded_mesh_def delete_array_def is_vertices_def is_indices_def cleared_def upd)
    qed
  qed
  from first again show ?thesis by blast
qed

theorem release_witness:
  "owns_arrays ex_result \<and>
   (\<exists>h'. free_decoded_mesh ex_result = Inr \<lparr>heap = h', out = cleared\<rparr> \<and>
      lookup h' 0 = Some (IndexArray [5]) \<and> lookup h' 1 = None \<and> lookup h' 2 = None \<and>
      free_decoded_mesh \<lparr>heap = h', out = cleared\<rparr> = Inr \<lparr>heap = h', out = cleared\<rparr>)"
proof -
  have o: "owns_arrays ex_result"
    by (simp add: owns_arrays_def ex_result_def vertices_at_def indices_at_def lookup_def)
  from release [of ex_result] o obtain h' where
    f: "free_decoded_mesh ex_result = Inr \<lparr>heap = h', out = cleared\<rparr>" and
    l: "\<And>a. lookup h' a =
      (if vertices (out ex_result) = Addr a \<or> indices (out ex_result) = Addr a then None
       else lookup (heap ex_result) a)"
    by blast
  have "lookup h' 0 = Some (IndexArray [5])" "lookup h' 1 = None" "lookup h' 2 = None"
    by (simp_all add: l) (simp_all add: ex_result_def lookup_def)
  moreover have "free_decoded_mesh \<lparr>heap = h', out = cleared\<rparr> = Inr \<lparr>heap = h', out = cleared\<rparr>"
    using release [of "\<lparr>heap = h', out = cleared\<rparr>"] by simp
  ultimately show ?thesis
    using o f by blast
qed

end
